theory Spec2Isabelle
  imports Main
begin

section \<open>Strings\<close>

text \<open>
  A Python \<open>str\<close> is modelled as an Isabelle \<open>string\<close>: a list of characters whose
  codes range over 0..255, read as the code points U+0000..U+00FF. On that range
  \<open>str.lower\<close> works character by character, \<open>str.strip\<close> removes the characters
  for which \<open>str.isspace\<close> holds, and the regular-expression classes \<open>\d\<close> and
  \<open>\w\<close> (in the Unicode mode that \<open>re\<close> uses for \<open>str\<close> patterns) are the sets
  written out below.
\<close>

definition code :: "char \<Rightarrow> nat" where
  "code c = of_char c"

definition is_ascii_upper :: "char \<Rightarrow> bool" where
  "is_ascii_upper c \<longleftrightarrow> 65 \<le> code c \<and> code c \<le> 90"

definition is_upper :: "char \<Rightarrow> bool" where
  "is_upper c \<longleftrightarrow> is_ascii_upper c \<or> (192 \<le> code c \<and> code c \<le> 214) \<or> (216 \<le> code c \<and> code c \<le> 222)"

definition lower_char :: "char \<Rightarrow> char" where
  "lower_char c = (if is_upper c then char_of (code c + 32) else c)"

definition lower :: "string \<Rightarrow> string" where
  "lower s = map lower_char s"

definition is_space :: "char \<Rightarrow> bool" where
  "is_space c \<longleftrightarrow> (9 \<le> code c \<and> code c \<le> 13) \<or> (28 \<le> code c \<and> code c \<le> 32)
     \<or> code c = 133 \<or> code c = 160"

definition strip :: "string \<Rightarrow> string" where
  "strip s = rev (dropWhile is_space (rev (dropWhile is_space s)))"

definition is_digit :: "char \<Rightarrow> bool" where
  "is_digit c \<longleftrightarrow> 48 \<le> code c \<and> code c \<le> 57"

definition is_word :: "char \<Rightarrow> bool" where
  "is_word c \<longleftrightarrow> is_digit c \<or> is_ascii_upper c \<or> (97 \<le> code c \<and> code c \<le> 122) \<or> code c = 95
     \<or> code c = 170 \<or> code c = 178 \<or> code c = 179 \<or> code c = 181 \<or> code c = 185 \<or> code c = 186
     \<or> (188 \<le> code c \<and> code c \<le> 190) \<or> (192 \<le> code c \<and> code c \<le> 214)
     \<or> (216 \<le> code c \<and> code c \<le> 246) \<or> (248 \<le> code c \<and> code c \<le> 255)"

text \<open>\<open>startswith p s\<close> is Python's \<open>s.startswith(p)\<close>; \<open>contains p s\<close> is \<open>p in s\<close>.\<close>

fun startswith :: "string \<Rightarrow> string \<Rightarrow> bool" where
  "startswith [] s = True"
| "startswith (p # ps) [] = False"
| "startswith (p # ps) (c # cs) = (p = c \<and> startswith ps cs)"

fun contains :: "string \<Rightarrow> string \<Rightarrow> bool" where
  "contains p [] = (p = [])"
| "contains p (c # cs) = (startswith p (c # cs) \<or> contains p cs)"

text \<open>\<open>join sep xs\<close> is \<open>sep.join(xs)\<close>.\<close>

fun join :: "string \<Rightarrow> string list \<Rightarrow> string" where
  "join sep [] = []"
| "join sep [x] = x"
| "join sep (x # y # ys) = x @ sep @ join sep (y # ys)"

section \<open>The order-id pattern\<close>

text \<open>
  \<open>re.search(r"\b([A-Z]\d{2,})\b", s)\<close>. A position is a word boundary when exactly one
  of the characters before and after it is a word character; the start and the end of
  the string count as non-word. The scan tries every start position from the left; at a
  start it needs a boundary, one letter of \<open>A-Z\<close>, then the greedy \<open>\d{2,}\<close>, which
  takes the whole run of digits and gives them back one by one, down to two, until the
  closing boundary holds.
\<close>

fun is_word_opt :: "char option \<Rightarrow> bool" where
  "is_word_opt None = False"
| "is_word_opt (Some c) = is_word c"

definition word_boundary :: "char option \<Rightarrow> char option \<Rightarrow> bool" where
  "word_boundary prev nxt \<longleftrightarrow> is_word_opt prev \<noteq> is_word_opt nxt"

fun last_opt :: "string \<Rightarrow> char option" where
  "last_opt [] = None"
| "last_opt (c # cs) = (if cs = [] then Some c else last_opt cs)"

fun hd_opt :: "string \<Rightarrow> char option" where
  "hd_opt [] = None"
| "hd_opt (c # cs) = Some c"

definition boundary_after :: "string \<Rightarrow> nat \<Rightarrow> bool" where
  "boundary_after cs k \<longleftrightarrow> word_boundary (last_opt (take k cs)) (hd_opt (drop k cs))"

fun backtrack_digits :: "string \<Rightarrow> nat \<Rightarrow> nat option" where
  "backtrack_digits cs k =
     (if k < 2 then None
      else if boundary_after cs k then Some k
      else backtrack_digits cs (k - 1))"

declare backtrack_digits.simps [simp del]

definition match_order_id_at :: "char option \<Rightarrow> string \<Rightarrow> string option" where
  "match_order_id_at prev s =
     (case s of
        [] \<Rightarrow> None
      | c # cs \<Rightarrow>
          if word_boundary prev (Some c) \<and> is_ascii_upper c then
            (case backtrack_digits cs (length (takeWhile is_digit cs)) of
               None \<Rightarrow> None
             | Some k \<Rightarrow> Some (c # take k cs))
          else None)"

fun search_from :: "char option \<Rightarrow> string \<Rightarrow> string option" where
  "search_from prev [] = None"
| "search_from prev (c # cs) =
     (case match_order_id_at prev (c # cs) of
        Some g \<Rightarrow> Some g
      | None \<Rightarrow> search_from (Some c) cs)"

definition search_order_id :: "string \<Rightarrow> string option" where
  "search_order_id s = search_from None s"

section \<open>Log\<close>

text \<open>
  \<open>log_event\<close> appends one line to the log file. The file is modelled as the list of
  entries written so far; an entry keeps its event type and payload (the timestamp is read
  from the clock and is left out).
\<close>

datatype jvalue = JStr string | JBool bool | JDict "(string \<times> jvalue) list"

record log_entry =
  event_type :: string
  payload :: "(string \<times> jvalue) list"

type_synonym log = "log_entry list"

definition log_event :: "string \<Rightarrow> (string \<times> jvalue) list \<Rightarrow> log \<Rightarrow> log" where
  "log_event ev pl lg = lg @ [\<lparr>event_type = ev, payload = pl\<rparr>]"

section \<open>Guardrails\<close>

definition OFFENSIVE_WORDS :: "string list" where
  "OFFENSIVE_WORDS = [''idiot'', ''stupid'', ''hate'', ''kill'', ''damn'', ''shut up'']"

definition NEGATIVE_WORDS :: "string list" where
  "NEGATIVE_WORDS = [''angry'', ''upset'', ''unhappy'', ''not happy'', ''complain'', ''bad'', ''terrible'']"

record verdict =
  offensive :: bool
  negative :: bool

definition detect_offensive_or_negative :: "string \<Rightarrow> verdict" where
  "detect_offensive_or_negative text =
     (let text_lower = lower text;
          found_offensive = list_ex (\<lambda>w. contains w text_lower) OFFENSIVE_WORDS;
          found_negative = list_ex (\<lambda>w. contains w text_lower) NEGATIVE_WORDS
      in \<lparr>offensive = found_offensive, negative = found_negative\<rparr>)"

text \<open>
  The dictionaries that \<open>handle\<close> returns: \<open>handled\<close> and \<open>message\<close> are always
  present, the other keys are \<open>None\<close> when the dictionary does not have them. The key
  \<open>guardrail\<close> is the field \<open>guardrail_flag\<close>, since \<open>guardrail\<close> names the decorator.
\<close>

record response =
  handled :: bool
  message :: string
  guardrail_flag :: "bool option"
  action :: "string option"
  tool_error :: "bool option"
  handoff :: "bool option"
  reason :: "string option"

definition reply :: "bool \<Rightarrow> string \<Rightarrow> response" where
  "reply h m = \<lparr>handled = h, message = m, guardrail_flag = None, action = None,
     tool_error = None, handoff = None, reason = None\<rparr>"

definition guardrail_reply :: response where
  "guardrail_reply = (reply True
     ''I'm here to help, but I can't respond to offensive language. Could you rephrase your question?'')
     \<lparr>guardrail_flag := Some True, action := Some ''block_or_rephrase''\<rparr>"

definition guardrail ::
  "('a \<Rightarrow> string \<Rightarrow> log \<Rightarrow> 'e + response \<times> log) \<Rightarrow> 'a \<Rightarrow> string \<Rightarrow> log \<Rightarrow> 'e + response \<times> log" where
  "guardrail fn self user_input lg =
     (let detected = detect_offensive_or_negative user_input in
      if offensive detected then
        Inr (guardrail_reply,
             log_event ''guardrail_triggered''
               [(''reason'', JStr ''offensive_language''), (''input'', JStr user_input)] lg)
      else fn self user_input lg)"

section \<open>The function-tool system and the order tool\<close>

text \<open>
  The tool returns one of two dictionaries: \<open>{"error": True, "message": m}\<close>, written
  \<open>Error_Dict m\<close>, or the dictionary of an order with the keys \<open>order_id\<close>, \<open>status\<close>,
  \<open>eta\<close>, \<open>items\<close> and \<open>customer_id\<close>, in that order in \<open>Order_Dict\<close>.
  \<open>order_error_function\<close> builds a dictionary of the first shape.
\<close>

datatype error_dict = Error_Dict string

fun err_message :: "error_dict \<Rightarrow> string" where
  "err_message (Error_Dict m) = m"

datatype order_dict = Order_Dict string string string "string list" string

type_synonym tool_result = "error_dict + order_dict"

record order =
  status :: string
  eta :: string
  items :: "string list"
  customer_id :: string

definition SIMULATED_ORDERS :: "(string \<times> order) list" where
  "SIMULATED_ORDERS =
     [(''A100'', \<lparr>status = ''shipped'', eta = ''2025-09-04'', items = [''Blue T-shirt'', ''Cap''],
                 customer_id = ''12345''\<rparr>),
      (''B201'', \<lparr>status = ''processing'', eta = ''2025-09-10'', items = [''Coffee Mug''],
                 customer_id = ''67890''\<rparr>),
      (''C303'', \<lparr>status = ''delivered'', eta = ''2025-08-20'', items = [''Notebook''],
                 customer_id = ''12345''\<rparr>)]"

definition order_tool_enabled_predicate :: "string \<Rightarrow> bool" where
  "order_tool_enabled_predicate query =
     (let q = lower query in contains ''order'' q \<or> search_order_id query \<noteq> None)"

definition order_error_function :: "string \<Rightarrow> error_dict" where
  "order_error_function order_id =
     Error_Dict (''Order ID '' @ [CHR 0x27] @ order_id @ [CHR 0x27]
       @ '' not found. Please check the ID or contact support.'')"

definition get_order_status_func :: "string \<Rightarrow> string \<Rightarrow> log \<Rightarrow> tool_result \<times> log" where
  "get_order_status_func user_input order_id lg =
     (let lg1 = log_event ''tool_invoked''
            [(''tool'', JStr ''get_order_status''), (''order_id'', JStr order_id),
             (''user_input'', JStr user_input)] lg
      in case map_of SIMULATED_ORDERS order_id of
           None \<Rightarrow> (Inl (Error_Dict (''Order '' @ order_id @ '' not found.'')), lg1)
         | Some ord \<Rightarrow>
             (Inr (Order_Dict order_id (status ord) (eta ord) (items ord) (customer_id ord)), lg1))"

record function_tool =
  func :: "string \<Rightarrow> string \<Rightarrow> log \<Rightarrow> tool_result \<times> log"
  tool_name :: string
  is_enabled :: "string \<Rightarrow> bool"
  error_function :: "(string \<Rightarrow> error_dict) option"

text \<open>\<open>FunctionTool.__init__\<close>: a tool given no predicate is always enabled.\<close>

definition FunctionTool ::
  "(string \<Rightarrow> string \<Rightarrow> log \<Rightarrow> tool_result \<times> log) \<Rightarrow> string \<Rightarrow> (string \<Rightarrow> bool) option
     \<Rightarrow> (string \<Rightarrow> error_dict) option \<Rightarrow> function_tool" where
  "FunctionTool f nm en ef =
     \<lparr>func = f, tool_name = nm,
      is_enabled = (case en of None \<Rightarrow> (\<lambda>query. True) | Some p \<Rightarrow> p),
      error_function = ef\<rparr>"

definition get_order_status :: function_tool where
  "get_order_status =
     FunctionTool get_order_status_func ''get_order_status''
       (Some order_tool_enabled_predicate) (Some order_error_function)"

section \<open>Agents\<close>

text \<open>
  \<open>metadata\<close> is a dictionary whose values are strings or \<open>None\<close> (the command-line
  loop stores \<open>CONFIG.get("CUSTOMER_ID") or None\<close>); \<open>dict_get m k\<close> is \<open>m.get(k)\<close>,
  and \<open>truthy\<close> is Python's truth value of such a result.
\<close>

record model_settings =
  tool_choice :: string
  metadata :: "string \<rightharpoonup> string option"

definition ModelSettings :: "string \<Rightarrow> (string \<rightharpoonup> string option) \<Rightarrow> model_settings" where
  "ModelSettings tc md = \<lparr>tool_choice = tc, metadata = md\<rparr>"

definition default_settings :: model_settings where
  "default_settings = ModelSettings ''auto'' Map.empty"

definition dict_get :: "(string \<rightharpoonup> string option) \<Rightarrow> string \<Rightarrow> string option" where
  "dict_get m k = (case m k of None \<Rightarrow> None | Some v \<Rightarrow> v)"

definition truthy :: "string option \<Rightarrow> bool" where
  "truthy v \<longleftrightarrow> (case v of None \<Rightarrow> False | Some s \<Rightarrow> s \<noteq> [])"

record bot_agent =
  agent_name :: string
  settings :: model_settings
  faqs :: "(string \<times> string) list"
  tools :: "(string \<times> function_tool) list"

definition FAQS :: "(string \<times> string) list" where
  "FAQS =
     [(''what is your return policy'',
       ''You can return items within 14 days of delivery for a full refund (item must be unused).''),
      (''how to contact support'',
       ''You can contact support at support@example.com or call +1-800-555-1234.''),
      (''do you ship internationally'',
       ''Yes, we ship to many countries. Shipping costs vary by destination.'')]"

definition BotAgent :: "model_settings \<Rightarrow> bot_agent" where
  "BotAgent ms =
     \<lparr>agent_name = ''BotAgent'', settings = ms, faqs = FAQS,
      tools = [(''get_order_status'', get_order_status)]\<rparr>"

text \<open>
  The loop over \<open>self.faqs\<close>: the first entry, in the order of the table, whose key is in
  \<open>q\<close>. The keys of a dictionary are distinct, so the value paired with that key is
  \<open>self.faqs[k]\<close>.
\<close>

fun first_faq :: "(string \<times> string) list \<Rightarrow> string \<Rightarrow> (string \<times> string) option" where
  "first_faq [] q = None"
| "first_faq ((k, v) # rest) q = (if contains k q then Some (k, v) else first_faq rest q)"

definition handoff_reply :: "string \<Rightarrow> string \<Rightarrow> response" where
  "handoff_reply r m = (reply False m)\<lparr>handoff := Some True, reason := Some r\<rparr>"

definition order_message :: "string \<Rightarrow> string \<Rightarrow> string \<Rightarrow> string list \<Rightarrow> string" where
  "order_message order_id st et its =
     ''Order '' @ order_id @ '' is currently '' @ [CHR 0x27] @ st @ [CHR 0x27] @ ''. ETA: '' @ et
       @ ''. Items: '' @ join '', '' its @ ''.''"

text \<open>
  \<open>BotAgent.handle\<close> without its decorator. \<open>self.tools.get("get_order_status")\<close> is
  \<open>None\<close> for an agent without that tool, and \<open>tool._tool\<close> then raises.
\<close>

datatype py_error = AttributeError

definition handle_body :: "bot_agent \<Rightarrow> string \<Rightarrow> log \<Rightarrow> py_error + response \<times> log" where
  "handle_body self user_input lg =
     (let q = lower (strip user_input) in
      case first_faq (faqs self) q of
        Some (k, v) \<Rightarrow>
          Inr (reply True v,
               log_event ''faq_answered'' [(''faq'', JStr k), (''user_input'', JStr user_input)] lg)
      | None \<Rightarrow>
         (case map_of (tools self) ''get_order_status'' of
            None \<Rightarrow> Inl AttributeError
          | Some tool \<Rightarrow>
             (let tool_enabled = is_enabled tool user_input in
              if tool_choice (settings self) = ''required'' \<and> \<not> tool_enabled then
                Inr (handoff_reply ''tool_required_but_disabled''
                       ''I need to fetch order details but couldn't. Handing off to human agent.'',
                     log_event ''escalation_reason''
                       [(''reason'', JStr ''tool_required_but_disabled''), (''input'', JStr user_input)] lg)
              else if tool_enabled \<and> tool_choice (settings self) \<in> set [''auto'', ''required''] then
                (case search_order_id user_input of
                   Some order_id \<Rightarrow>
                     (case func tool user_input order_id lg of
                        (Inl result, lg1) \<Rightarrow>
                          (case error_function tool of
                             Some ef \<Rightarrow>
                               (let err = ef order_id in
                                Inr ((reply True (err_message err))\<lparr>tool_error := Some True\<rparr>,
                                     log_event ''tool_error''
                                       [(''tool'', JStr ''get_order_status''), (''order_id'', JStr order_id),
                                        (''error'', JDict [(''error'', JBool True),
                                                           (''message'', JStr (err_message err))])] lg1))
                           | None \<Rightarrow>
                               Inr ((reply True (err_message result))\<lparr>tool_error := Some True\<rparr>, lg1))
                      | (Inr (Order_Dict oid st et its cid), lg1) \<Rightarrow>
                          (let msg = order_message order_id st et its;
                               mc = dict_get (metadata (settings self)) ''customer_id'';
                               msg2 = (if truthy mc \<and> mc = Some cid
                                       then msg @ '' (Verified customer)'' else msg)
                           in Inr (reply True msg2,
                                   log_event ''tool_success''
                                     [(''tool'', JStr ''get_order_status''), (''order_id'', JStr order_id)]
                                     lg1)))
                 | None \<Rightarrow>
                     (let detected = detect_offensive_or_negative user_input in
                      if negative detected then
                        Inr (handoff_reply ''negative_sentiment''
                               ''I can see you're upset. I'll transfer you to a human agent for support.'',
                             log_event ''escalation''
                               [(''reason'', JStr ''negative_sentiment''), (''input'', JStr user_input)] lg)
                      else
                        Inr (reply True
                               ''Could you please provide your order ID (format like A100) so I can check the status?'',
                             lg)))
              else
                Inr (handoff_reply ''unknown_or_complex''
                       ''I'm not sure about that. I'll hand you over to a human agent.'',
                     log_event ''escalation_reason''
                       [(''reason'', JStr ''unknown_or_complex''), (''input'', JStr user_input)] lg))))"

definition handle :: "bot_agent \<Rightarrow> string \<Rightarrow> log \<Rightarrow> py_error + response \<times> log" where
  "handle = guardrail handle_body"

section \<open>The eligibility contract in the words of the specification\<close>

text \<open>
  This second predicate follows the words of the specification, not the source: the
  lower-cased text contains "order", or the text holds one upper-case ASCII letter followed
  by two or more digits. It says nothing about what stands before the letter or after the
  digits. It is compared with \<open>order_tool_enabled_predicate\<close> below.
\<close>

fun has_letter_digits :: "string \<Rightarrow> bool" where
  "has_letter_digits [] = False"
| "has_letter_digits (c # cs) =
     ((is_ascii_upper c \<and> 2 \<le> length (takeWhile is_digit cs)) \<or> has_letter_digits cs)"

definition spec_eligible :: "string \<Rightarrow> bool" where
  "spec_eligible text \<longleftrightarrow> contains ''order'' (lower text) \<or> has_letter_digits text"

section \<open>Substrings, lower case and the table of questions\<close>

text \<open>
  \<open>contains p s\<close> holds exactly when \<open>p\<close> occurs in \<open>s\<close> as a contiguous piece, and a
  word occurs in the lower-cased text exactly when a piece of the text lower-cases to it.
\<close>

lemma startswith_iff: "startswith p s \<longleftrightarrow> (\<exists>b. s = p @ b)"
  by (induction p s rule: startswith.induct) auto

lemma contains_iff: "contains p s \<longleftrightarrow> (\<exists>a b. s = a @ p @ b)"
proof (induction s)
  case Nil
  then show ?case by auto
next
  case (Cons c cs)
  show ?case
  proof
    assume "contains p (c # cs)"
    then consider "startswith p (c # cs)" | "contains p cs" by auto
    then show "\<exists>a b. c # cs = a @ p @ b"
    proof cases
      case 1
      then obtain b where "c # cs = p @ b" by (auto simp: startswith_iff)
      then have "c # cs = [] @ p @ b" by simp
      then show ?thesis by blast
    next
      case 2
      with Cons obtain a b where "cs = a @ p @ b" by auto
      then have "c # cs = (c # a) @ p @ b" by simp
      then show ?thesis by blast
    qed
  next
    assume "\<exists>a b. c # cs = a @ p @ b"
    then obtain a b where ab: "c # cs = a @ p @ b" by auto
    show "contains p (c # cs)"
    proof (cases a)
      case Nil
      with ab have "startswith p (c # cs)" by (auto simp: startswith_iff)
      then show ?thesis by simp
    next
      case (Cons x a')
      with ab have "cs = a' @ p @ b" by simp
      then have "contains p cs" using Cons.IH by blast
      then show ?thesis by simp
    qed
  qed
qed

lemma lower_append: "lower (a @ b) = lower a @ lower b"
  by (simp add: lower_def)

lemma contains_lower_iff:
  "contains w (lower t) \<longleftrightarrow> (\<exists>a u b. t = a @ u @ b \<and> lower u = w)"
proof
  assume "contains w (lower t)"
  then obtain x y where xy: "lower t = x @ w @ y" by (auto simp: contains_iff)
  let ?a = "take (length x) t"
  let ?u = "take (length w) (drop (length x) t)"
  let ?b = "drop (length w) (drop (length x) t)"
  have "t = ?a @ ?u @ ?b" by (simp only: append_take_drop_id)
  moreover have "lower ?u = w"
  proof -
    have "lower ?u = take (length w) (drop (length x) (lower t))"
      by (simp add: lower_def take_map drop_map)
    then show ?thesis by (simp add: xy)
  qed
  ultimately show "\<exists>a u b. t = a @ u @ b \<and> lower u = w" by blast
next
  assume "\<exists>a u b. t = a @ u @ b \<and> lower u = w"
  then obtain a u b where "t = a @ u @ b" "lower u = w" by auto
  then have "lower t = lower a @ w @ lower b" by (simp add: lower_append)
  then show "contains w (lower t)" by (auto simp: contains_iff)
qed

lemma offensive_iff:
  "offensive (detect_offensive_or_negative t) \<longleftrightarrow>
     (\<exists>w \<in> set OFFENSIVE_WORDS. contains w (lower t))"
  by (simp add: detect_offensive_or_negative_def Let_def list_ex_iff)

lemma negative_iff:
  "negative (detect_offensive_or_negative t) \<longleftrightarrow>
     (\<exists>w \<in> set NEGATIVE_WORDS. contains w (lower t))"
  by (simp add: detect_offensive_or_negative_def Let_def list_ex_iff)

lemma first_faq_None_iff:
  "first_faq fs q = None \<longleftrightarrow> (\<forall>k \<in> fst ` set fs. \<not> contains k q)"
  by (induction fs q rule: first_faq.induct) auto

lemma first_faq_first:
  "\<exists>k \<in> fst ` set fs. contains k q \<Longrightarrow>
   \<exists>i < length fs. first_faq fs q = Some (fs ! i) \<and> contains (fst (fs ! i)) q
      \<and> (\<forall>j < i. \<not> contains (fst (fs ! j)) q)"
proof (induction fs q rule: first_faq.induct)
  case (1 q)
  then show ?case by simp
next
  case (2 k v rest q)
  show ?case
  proof (cases "contains k q")
    case True
    then have "first_faq ((k, v) # rest) q = Some (((k, v) # rest) ! 0)
      \<and> contains (fst (((k, v) # rest) ! 0)) q \<and> (\<forall>j < 0. \<not> contains (fst (((k, v) # rest) ! j)) q)"
      by simp
    then show ?thesis by blast
  next
    case False
    with 2 obtain i where i: "i < length rest" "first_faq rest q = Some (rest ! i)"
      "contains (fst (rest ! i)) q" "\<forall>j < i. \<not> contains (fst (rest ! j)) q"
      by auto
    have "\<forall>j < Suc i. \<not> contains (fst (((k, v) # rest) ! j)) q"
    proof (intro allI impI)
      fix j assume "j < Suc i"
      then show "\<not> contains (fst (((k, v) # rest) ! j)) q"
        using False i(4) by (cases j) auto
    qed
    with i False have "Suc i < length ((k, v) # rest) \<and>
      first_faq ((k, v) # rest) q = Some (((k, v) # rest) ! Suc i)
      \<and> contains (fst (((k, v) # rest) ! Suc i)) q
      \<and> (\<forall>j < Suc i. \<not> contains (fst (((k, v) # rest) ! j)) q)"
      by simp
    then show ?thesis by blast
  qed
qed

lemma dict_get_simps [simp]:
  "dict_get Map.empty k = None"
  "dict_get [k \<mapsto> v] k = v"
  by (simp_all add: dict_get_def)

section \<open>What the order-id pattern matches\<close>

text \<open>
  Digits and the letters \<open>A-Z\<close> are word characters, so the closing boundary can hold only
  after the whole run of digits: giving digits back never helps. The search succeeds
  exactly when the text holds a letter of \<open>A-Z\<close> followed by two or more digits, with no
  word character right before the letter and none right after the digits.
\<close>

lemma digit_is_word: "is_digit c \<Longrightarrow> is_word c"
  by (simp add: is_word_def)

lemma upper_is_word: "is_ascii_upper c \<Longrightarrow> is_word c"
  by (simp add: is_word_def)

lemma last_opt_eq: "last_opt xs = (if xs = [] then None else Some (last xs))"
  by (induction xs) auto

lemma hd_opt_eq: "hd_opt xs = (if xs = [] then None else Some (hd xs))"
  by (cases xs) auto

lemma digit_run_nth:
  assumes "i < length (takeWhile is_digit cs)"
  shows "is_digit (cs ! i)"
proof -
  have "takeWhile is_digit cs ! i \<in> set (takeWhile is_digit cs)"
    using assms by simp
  then have "is_digit (takeWhile is_digit cs ! i)"
    by (rule set_takeWhileD [THEN conjunct2])
  then show ?thesis using assms by (simp add: takeWhile_nth)
qed

lemma last_take_digit:
  assumes "0 < k" and "k \<le> length (takeWhile is_digit cs)"
  shows "is_word_opt (last_opt (take k cs))"
proof -
  have len: "length (takeWhile is_digit cs) \<le> length cs"
    by (rule length_takeWhile_le)
  with assms have kl: "k \<le> length cs" and ne: "take k cs \<noteq> []" by auto
  from kl have "length (take k cs) = k" by simp
  with ne have "last (take k cs) = take k cs ! (k - 1)"
    by (simp add: last_conv_nth)
  with assms have "last (take k cs) = cs ! (k - 1)" by simp
  moreover have "is_digit (cs ! (k - 1))"
    using assms by (intro digit_run_nth) simp
  ultimately show ?thesis using ne by (simp add: last_opt_eq digit_is_word)
qed

lemma hd_drop_digit:
  assumes "k < length (takeWhile is_digit cs)"
  shows "is_word_opt (hd_opt (drop k cs))"
proof -
  have len: "length (takeWhile is_digit cs) \<le> length cs"
    by (rule length_takeWhile_le)
  with assms have "k < length cs" by simp
  then have "drop k cs \<noteq> []" "hd (drop k cs) = cs ! k"
    by (simp_all add: hd_drop_conv_nth)
  then show ?thesis using digit_run_nth [OF assms] by (simp add: hd_opt_eq digit_is_word)
qed

lemma backtrack_inside_run:
  "k < length (takeWhile is_digit cs) \<Longrightarrow> backtrack_digits cs k = None"
proof (induction cs k rule: backtrack_digits.induct)
  case (1 cs k)
  show ?case
  proof (cases "k < 2")
    case True
    then show ?thesis by (simp add: backtrack_digits.simps)
  next
    case False
    then have "is_word_opt (last_opt (take k cs))"
      using "1.prems" by (intro last_take_digit) auto
    moreover have "is_word_opt (hd_opt (drop k cs))"
      using "1.prems" by (rule hd_drop_digit)
    ultimately have nb: "\<not> boundary_after cs k"
      by (simp add: boundary_after_def word_boundary_def)
    have "backtrack_digits cs (k - 1) = None"
      using False nb "1.prems" by (intro "1.IH") auto
    then show ?thesis using False nb by (simp add: backtrack_digits.simps)
  qed
qed

lemma backtrack_whole_run:
  "backtrack_digits cs (length (takeWhile is_digit cs)) =
     (if 2 \<le> length (takeWhile is_digit cs) \<and> \<not> is_word_opt (hd_opt (dropWhile is_digit cs))
      then Some (length (takeWhile is_digit cs)) else None)"
proof -
  let ?n = "length (takeWhile is_digit cs)"
  show ?thesis
  proof (cases "?n < 2")
    case True
    then show ?thesis by (simp add: backtrack_digits.simps)
  next
    case False
    then have "is_word_opt (last_opt (take ?n cs))"
      by (intro last_take_digit) auto
    then have b: "boundary_after cs ?n \<longleftrightarrow> \<not> is_word_opt (hd_opt (dropWhile is_digit cs))"
      by (simp add: boundary_after_def word_boundary_def dropWhile_eq_drop)
    have "backtrack_digits cs (?n - 1) = None"
      using False by (intro backtrack_inside_run) auto
    then show ?thesis using False b by (simp add: backtrack_digits.simps)
  qed
qed

lemma match_order_id_at_Cons:
  "match_order_id_at prev (c # cs) =
     (if \<not> is_word_opt prev \<and> is_ascii_upper c \<and> 2 \<le> length (takeWhile is_digit cs)
          \<and> \<not> is_word_opt (hd_opt (dropWhile is_digit cs))
      then Some (c # takeWhile is_digit cs) else None)"
proof -
  have wb: "word_boundary prev (Some c) \<and> is_ascii_upper c
              \<longleftrightarrow> \<not> is_word_opt prev \<and> is_ascii_upper c"
    by (auto simp add: word_boundary_def upper_is_word)
  have tk: "take (length (takeWhile is_digit cs)) cs = takeWhile is_digit cs"
    by (rule takeWhile_eq_take [symmetric])
  show ?thesis
    by (simp add: match_order_id_at_def backtrack_whole_run wb tk)
qed


lemma digit_run_exact:
  assumes "list_all is_digit ds" and "\<not> is_word_opt (hd_opt post)"
  shows "takeWhile is_digit (ds @ post) = ds" and "dropWhile is_digit (ds @ post) = post"
proof -
  from assms(1) have all: "\<forall>x \<in> set ds. is_digit x" by (simp add: list_all_iff)
  from assms(2) have stop: "takeWhile is_digit post = []" "dropWhile is_digit post = post"
    by (cases post; auto simp add: digit_is_word)+
  from all stop show "takeWhile is_digit (ds @ post) = ds"
    by (simp add: takeWhile_append2)
  from all stop show "dropWhile is_digit (ds @ post) = post"
    by (simp add: dropWhile_append2)
qed

lemma search_from_iff:
  "search_from prev s \<noteq> None \<longleftrightarrow>
     (\<exists>pre c ds post. s = pre @ c # ds @ post \<and> is_ascii_upper c \<and> 2 \<le> length ds
        \<and> list_all is_digit ds
        \<and> \<not> is_word_opt (if pre = [] then prev else last_opt pre)
        \<and> \<not> is_word_opt (hd_opt post))"
proof (induction s arbitrary: prev)
  case Nil
  then show ?case by simp
next
  case (Cons x xs)
  let ?here = "\<not> is_word_opt prev \<and> is_ascii_upper x \<and> 2 \<le> length (takeWhile is_digit xs)
                 \<and> \<not> is_word_opt (hd_opt (dropWhile is_digit xs))"
  have step: "search_from prev (x # xs) \<noteq> None \<longleftrightarrow> ?here \<or> search_from (Some x) xs \<noteq> None"
    by (auto simp add: match_order_id_at_Cons)
  show ?case
  proof
    assume "search_from prev (x # xs) \<noteq> None"
    with step consider ?here | "search_from (Some x) xs \<noteq> None" by blast
    then show "\<exists>pre c ds post. x # xs = pre @ c # ds @ post \<and> is_ascii_upper c \<and> 2 \<le> length ds
        \<and> list_all is_digit ds
        \<and> \<not> is_word_opt (if pre = [] then prev else last_opt pre)
        \<and> \<not> is_word_opt (hd_opt post)"
    proof cases
      case 1
      have "x # xs = [] @ x # takeWhile is_digit xs @ dropWhile is_digit xs" by simp
      moreover have "list_all is_digit (takeWhile is_digit xs)"
        by (auto simp add: list_all_iff dest: set_takeWhileD)
      ultimately show ?thesis using 1 by (metis (full_types))
    next
      case 2
      with Cons.IH [of "Some x"] obtain pre c ds post where d:
        "xs = pre @ c # ds @ post" "is_ascii_upper c" "2 \<le> length ds" "list_all is_digit ds"
        "\<not> is_word_opt (if pre = [] then Some x else last_opt pre)"
        "\<not> is_word_opt (hd_opt post)"
        by blast
      have "x # xs = (x # pre) @ c # ds @ post" using d(1) by simp
      moreover have "\<not> is_word_opt (if x # pre = [] then prev else last_opt (x # pre))"
        using d(5) by simp
      ultimately show ?thesis using d(2,3,4,6) by blast
    qed
  next
    assume "\<exists>pre c ds post. x # xs = pre @ c # ds @ post \<and> is_ascii_upper c \<and> 2 \<le> length ds
        \<and> list_all is_digit ds
        \<and> \<not> is_word_opt (if pre = [] then prev else last_opt pre)
        \<and> \<not> is_word_opt (hd_opt post)"
    then obtain pre c ds post where d:
      "x # xs = pre @ c # ds @ post" "is_ascii_upper c" "2 \<le> length ds" "list_all is_digit ds"
      "\<not> is_word_opt (if pre = [] then prev else last_opt pre)"
      "\<not> is_word_opt (hd_opt post)"
      by blast
    show "search_from prev (x # xs) \<noteq> None"
    proof (cases pre)
      case Nil
      with d(1) have xs: "x = c" "xs = ds @ post" by simp_all
      from digit_run_exact [OF d(4) d(6)] xs d Nil have ?here by simp
      with step show ?thesis by blast
    next
      case (Cons y pre')
      with d(1) have xs: "y = x" "xs = pre' @ c # ds @ post" by simp_all
      have "\<not> is_word_opt (if pre' = [] then Some x else last_opt pre')"
        using d(5) Cons xs(1) by (cases pre') auto
      with xs(2) d(2,3,4,6) have "search_from (Some x) xs \<noteq> None"
        using Cons.IH [of "Some x"] by blast
      with step show ?thesis by blast
    qed
  qed
qed

lemma search_order_id_iff:
  "search_order_id t \<noteq> None \<longleftrightarrow>
     (\<exists>pre c ds post. t = pre @ c # ds @ post \<and> is_ascii_upper c \<and> 2 \<le> length ds
        \<and> list_all is_digit ds \<and> \<not> is_word_opt (last_opt pre) \<and> \<not> is_word_opt (hd_opt post))"
proof -
  have "\<And>pre. (if pre = [] then None else last_opt pre) = last_opt pre"
    by simp
  then show ?thesis
    unfolding search_order_id_def search_from_iff by simp
qed

section \<open>The branches of \<open>handle\<close>\<close>

text \<open>
  One lemma for each way through \<open>handle\<close>, for an agent built by \<open>BotAgent\<close>: the
  conditions under which the branch is taken, the dictionary returned and the entries
  appended to the log.
\<close>

lemma agent_fields [simp]:
  "faqs (BotAgent s) = FAQS"
  "settings (BotAgent s) = s"
  "map_of (tools (BotAgent s)) ''get_order_status'' = Some get_order_status"
  by (simp_all add: BotAgent_def)

lemma tool_fields [simp]:
  "is_enabled get_order_status = order_tool_enabled_predicate"
  "error_function get_order_status = Some order_error_function"
  "func get_order_status = get_order_status_func"
  by (simp_all add: get_order_status_def FunctionTool_def)

lemma handle_offensive:
  "offensive (detect_offensive_or_negative t) \<Longrightarrow>
   handle a t lg = Inr (guardrail_reply,
     lg @ [\<lparr>event_type = ''guardrail_triggered'',
             payload = [(''reason'', JStr ''offensive_language''), (''input'', JStr t)]\<rparr>])"
  by (simp add: handle_def guardrail_def log_event_def)

lemma handle_clean:
  "\<not> offensive (detect_offensive_or_negative t) \<Longrightarrow> handle a t lg = handle_body a t lg"
  by (simp add: handle_def guardrail_def)

lemma body_faq:
  "first_faq FAQS (lower (strip t)) = Some (k, v) \<Longrightarrow>
   handle_body (BotAgent s) t lg =
     Inr (reply True v,
          lg @ [\<lparr>event_type = ''faq_answered'',
                  payload = [(''faq'', JStr k), (''user_input'', JStr t)]\<rparr>])"
  by (simp add: handle_body_def log_event_def)

lemma body_required:
  "first_faq FAQS (lower (strip t)) = None \<Longrightarrow> tool_choice s = ''required'' \<Longrightarrow>
   \<not> order_tool_enabled_predicate t \<Longrightarrow>
   handle_body (BotAgent s) t lg =
     Inr (handoff_reply ''tool_required_but_disabled''
            ''I need to fetch order details but couldn't. Handing off to human agent.'',
          lg @ [\<lparr>event_type = ''escalation_reason'',
                  payload = [(''reason'', JStr ''tool_required_but_disabled''), (''input'', JStr t)]\<rparr>])"
  by (simp add: handle_body_def log_event_def)

lemma body_fallback:
  "first_faq FAQS (lower (strip t)) = None \<Longrightarrow>
   \<not> (tool_choice s = ''required'' \<and> \<not> order_tool_enabled_predicate t) \<Longrightarrow>
   \<not> (order_tool_enabled_predicate t \<and> (tool_choice s = ''auto'' \<or> tool_choice s = ''required'')) \<Longrightarrow>
   handle_body (BotAgent s) t lg =
     Inr (handoff_reply ''unknown_or_complex''
            ''I'm not sure about that. I'll hand you over to a human agent.'',
          lg @ [\<lparr>event_type = ''escalation_reason'',
                  payload = [(''reason'', JStr ''unknown_or_complex''), (''input'', JStr t)]\<rparr>])"
  by (auto simp add: handle_body_def log_event_def)

lemma body_tool_error:
  "first_faq FAQS (lower (strip t)) = None \<Longrightarrow>
   order_tool_enabled_predicate t \<Longrightarrow> tool_choice s = ''auto'' \<or> tool_choice s = ''required'' \<Longrightarrow>
   search_order_id t = Some oid \<Longrightarrow> map_of SIMULATED_ORDERS oid = None \<Longrightarrow>
   handle_body (BotAgent s) t lg =
     Inr ((reply True (err_message (order_error_function oid)))\<lparr>tool_error := Some True\<rparr>,
          lg @ [\<lparr>event_type = ''tool_invoked'',
                  payload = [(''tool'', JStr ''get_order_status''), (''order_id'', JStr oid),
                             (''user_input'', JStr t)]\<rparr>,
                \<lparr>event_type = ''tool_error'',
                  payload = [(''tool'', JStr ''get_order_status''), (''order_id'', JStr oid),
                             (''error'', JDict [(''error'', JBool True),
                                (''message'', JStr (err_message (order_error_function oid)))])]\<rparr>])"
  by (auto simp add: handle_body_def log_event_def get_order_status_func_def Let_def)

lemma body_tool_success:
  "first_faq FAQS (lower (strip t)) = None \<Longrightarrow>
   order_tool_enabled_predicate t \<Longrightarrow> tool_choice s = ''auto'' \<or> tool_choice s = ''required'' \<Longrightarrow>
   search_order_id t = Some oid \<Longrightarrow> map_of SIMULATED_ORDERS oid = Some ord \<Longrightarrow>
   handle_body (BotAgent s) t lg =
     Inr (reply True
            (order_message oid (status ord) (eta ord) (items ord)
              @ (if truthy (dict_get (metadata s) ''customer_id'')
                    \<and> dict_get (metadata s) ''customer_id'' = Some (customer_id ord)
                 then '' (Verified customer)'' else [])),
          lg @ [\<lparr>event_type = ''tool_invoked'',
                  payload = [(''tool'', JStr ''get_order_status''), (''order_id'', JStr oid),
                             (''user_input'', JStr t)]\<rparr>,
                \<lparr>event_type = ''tool_success'',
                  payload = [(''tool'', JStr ''get_order_status''), (''order_id'', JStr oid)]\<rparr>])"
  by (auto simp add: handle_body_def log_event_def get_order_status_func_def Let_def)

lemma body_negative:
  "first_faq FAQS (lower (strip t)) = None \<Longrightarrow>
   order_tool_enabled_predicate t \<Longrightarrow> tool_choice s = ''auto'' \<or> tool_choice s = ''required'' \<Longrightarrow>
   search_order_id t = None \<Longrightarrow> negative (detect_offensive_or_negative t) \<Longrightarrow>
   handle_body (BotAgent s) t lg =
     Inr (handoff_reply ''negative_sentiment''
            ''I can see you're upset. I'll transfer you to a human agent for support.'',
          lg @ [\<lparr>event_type = ''escalation'',
                  payload = [(''reason'', JStr ''negative_sentiment''), (''input'', JStr t)]\<rparr>])"
  by (auto simp add: handle_body_def log_event_def)

lemma body_prompt:
  "first_faq FAQS (lower (strip t)) = None \<Longrightarrow>
   order_tool_enabled_predicate t \<Longrightarrow> tool_choice s = ''auto'' \<or> tool_choice s = ''required'' \<Longrightarrow>
   search_order_id t = None \<Longrightarrow> \<not> negative (detect_offensive_or_negative t) \<Longrightarrow>
   handle_body (BotAgent s) t lg =
     Inr (reply True
            ''Could you please provide your order ID (format like A100) so I can check the status?'',
          lg)"
  by (auto simp add: handle_body_def log_event_def)

text \<open>
  Every call of \<open>handle\<close> on an agent built by \<open>BotAgent\<close> takes exactly one of the
  eight branches.
\<close>

lemma handle_cases [case_names guard faq required tool_error tool_success negative prompt fallback]:
  obtains
    "offensive (detect_offensive_or_negative t)"
    "handle (BotAgent s) t lg = Inr (guardrail_reply,
       lg @ [\<lparr>event_type = ''guardrail_triggered'',
               payload = [(''reason'', JStr ''offensive_language''), (''input'', JStr t)]\<rparr>])"
  | k v where
    "\<not> offensive (detect_offensive_or_negative t)"
    "first_faq FAQS (lower (strip t)) = Some (k, v)"
    "handle (BotAgent s) t lg = Inr (reply True v,
       lg @ [\<lparr>event_type = ''faq_answered'',
               payload = [(''faq'', JStr k), (''user_input'', JStr t)]\<rparr>])"
  | "\<not> offensive (detect_offensive_or_negative t)"
    "first_faq FAQS (lower (strip t)) = None"
    "tool_choice s = ''required''" "\<not> order_tool_enabled_predicate t"
    "handle (BotAgent s) t lg =
       Inr (handoff_reply ''tool_required_but_disabled''
              ''I need to fetch order details but couldn't. Handing off to human agent.'',
            lg @ [\<lparr>event_type = ''escalation_reason'',
                    payload = [(''reason'', JStr ''tool_required_but_disabled''), (''input'', JStr t)]\<rparr>])"
  | oid where
    "\<not> offensive (detect_offensive_or_negative t)"
    "first_faq FAQS (lower (strip t)) = None"
    "order_tool_enabled_predicate t" "tool_choice s = ''auto'' \<or> tool_choice s = ''required''"
    "search_order_id t = Some oid" "map_of SIMULATED_ORDERS oid = None"
    "handle (BotAgent s) t lg =
       Inr ((reply True (err_message (order_error_function oid)))\<lparr>tool_error := Some True\<rparr>,
            lg @ [\<lparr>event_type = ''tool_invoked'',
                    payload = [(''tool'', JStr ''get_order_status''), (''order_id'', JStr oid),
                               (''user_input'', JStr t)]\<rparr>,
                  \<lparr>event_type = ''tool_error'',
                    payload = [(''tool'', JStr ''get_order_status''), (''order_id'', JStr oid),
                               (''error'', JDict [(''error'', JBool True),
                                  (''message'', JStr (err_message (order_error_function oid)))])]\<rparr>])"
  | oid ord where
    "\<not> offensive (detect_offensive_or_negative t)"
    "first_faq FAQS (lower (strip t)) = None"
    "order_tool_enabled_predicate t" "tool_choice s = ''auto'' \<or> tool_choice s = ''required''"
    "search_order_id t = Some oid" "map_of SIMULATED_ORDERS oid = Some ord"
    "handle (BotAgent s) t lg =
       Inr (reply True
              (order_message oid (status ord) (eta ord) (items ord)
                @ (if truthy (dict_get (metadata s) ''customer_id'')
                      \<and> dict_get (metadata s) ''customer_id'' = Some (customer_id ord)
                   then '' (Verified customer)'' else [])),
            lg @ [\<lparr>event_type = ''tool_invoked'',
                    payload = [(''tool'', JStr ''get_order_status''), (''order_id'', JStr oid),
                               (''user_input'', JStr t)]\<rparr>,
                  \<lparr>event_type = ''tool_success'',
                    payload = [(''tool'', JStr ''get_order_status''), (''order_id'', JStr oid)]\<rparr>])"
  | "\<not> offensive (detect_offensive_or_negative t)"
    "first_faq FAQS (lower (strip t)) = None"
    "order_tool_enabled_predicate t" "tool_choice s = ''auto'' \<or> tool_choice s = ''required''"
    "search_order_id t = None" "negative (detect_offensive_or_negative t)"
    "handle (BotAgent s) t lg =
       Inr (handoff_reply ''negative_sentiment''
              ''I can see you're upset. I'll transfer you to a human agent for support.'',
            lg @ [\<lparr>event_type = ''escalation'',
                    payload = [(''reason'', JStr ''negative_sentiment''), (''input'', JStr t)]\<rparr>])"
  | "\<not> offensive (detect_offensive_or_negative t)"
    "first_faq FAQS (lower (strip t)) = None"
    "order_tool_enabled_predicate t" "tool_choice s = ''auto'' \<or> tool_choice s = ''required''"
    "search_order_id t = None" "\<not> negative (detect_offensive_or_negative t)"
    "handle (BotAgent s) t lg =
       Inr (reply True
              ''Could you please provide your order ID (format like A100) so I can check the status?'',
            lg)"
  | "\<not> offensive (detect_offensive_or_negative t)"
    "first_faq FAQS (lower (strip t)) = None"
    "\<not> (tool_choice s = ''required'' \<and> \<not> order_tool_enabled_predicate t)"
    "\<not> (order_tool_enabled_predicate t \<and> (tool_choice s = ''auto'' \<or> tool_choice s = ''required''))"
    "handle (BotAgent s) t lg =
       Inr (handoff_reply ''unknown_or_complex''
              ''I'm not sure about that. I'll hand you over to a human agent.'',
            lg @ [\<lparr>event_type = ''escalation_reason'',
                    payload = [(''reason'', JStr ''unknown_or_complex''), (''input'', JStr t)]\<rparr>])"
proof (cases "offensive (detect_offensive_or_negative t)")
  case True
  then show ?thesis using that(1) handle_offensive by blast
next
  case clean: False
  note hb = handle_clean [OF clean, of "BotAgent s" lg]
  show ?thesis
  proof (cases "first_faq FAQS (lower (strip t))")
    case (Some kv)
    then obtain k v where "first_faq FAQS (lower (strip t)) = Some (k, v)" by (cases kv) auto
    then show ?thesis using that(2) [OF clean] body_faq hb by metis
  next
    case nofaq: None
    show ?thesis
    proof (cases "tool_choice s = ''required'' \<and> \<not> order_tool_enabled_predicate t")
      case True
      then show ?thesis using that(3) [OF clean nofaq] body_required [OF nofaq] hb by metis
    next
      case nreq: False
      show ?thesis
      proof (cases "order_tool_enabled_predicate t \<and> (tool_choice s = ''auto'' \<or> tool_choice s = ''required'')")
        case False
        then show ?thesis using that(8) [OF clean nofaq nreq] body_fallback [OF nofaq nreq] hb by metis
      next
        case en: True
        then have e1: "order_tool_enabled_predicate t"
          and e2: "tool_choice s = ''auto'' \<or> tool_choice s = ''required''" by auto
        show ?thesis
        proof (cases "search_order_id t")
          case noid: None
          show ?thesis
          proof (cases "negative (detect_offensive_or_negative t)")
            case True
            then show ?thesis
              using that(6) [OF clean nofaq e1 e2 noid] body_negative [OF nofaq e1 e2 noid] hb by metis
          next
            case False
            then show ?thesis
              using that(7) [OF clean nofaq e1 e2 noid] body_prompt [OF nofaq e1 e2 noid] hb by metis
          qed
        next
          case (Some oid)
          show ?thesis
          proof (cases "map_of SIMULATED_ORDERS oid")
            case None
            then show ?thesis
              using that(4) [OF clean nofaq e1 e2 Some] body_tool_error [OF nofaq e1 e2 Some] hb by metis
          next
            case (Some ord)
            then show ?thesis
              using that(5) [OF clean nofaq e1 e2 \<open>search_order_id t = Some oid\<close>]
                body_tool_success [OF nofaq e1 e2 \<open>search_order_id t = Some oid\<close>] hb by metis
          qed
        qed
      qed
    qed
  qed
qed


lemma first_faq_mem: "first_faq fs q = Some (k, v) \<Longrightarrow> (k, v) \<in> set fs"
  by (induction fs q rule: first_faq.induct) (auto split: if_splits)

lemma reason_simps [simp]:
  "reason (handoff_reply r m) = Some r"
  "reason (reply h m) = None"
  "reason ((reply h m)\<lparr>tool_error := e\<rparr>) = None"
  "reason guardrail_reply = None"
  by (simp_all add: handoff_reply_def reply_def guardrail_reply_def)

lemma default_tool_choice [simp]: "tool_choice default_settings = ''auto''"
  by (simp add: default_settings_def ModelSettings_def)

section \<open>Claims\<close>

subsection \<open>C1: an angry message without the word order\<close>

lemma angry_facts:
  "\<not> offensive (detect_offensive_or_negative ''I am so angry about this'')"
  "negative (detect_offensive_or_negative ''I am so angry about this'')"
  "first_faq FAQS (lower (strip ''I am so angry about this'')) = None"
  "\<not> order_tool_enabled_predicate ''I am so angry about this''"
  "search_order_id ''I am so angry about this'' = None"
  by code_simp+

text \<open>
  C1, as stated, fails: with the default settings the input "I am so angry about this" is
  not eligible for the order tool (no "order" in it, no order id), so \<open>handle\<close> never
  reaches the check for negative words; the reason returned is \<open>unknown_or_complex\<close>,
  not \<open>negative_sentiment\<close>.
\<close>

theorem C1_counterexample:
  "handle (BotAgent default_settings) ''I am so angry about this'' [] =
     Inr (handoff_reply ''unknown_or_complex''
            ''I'm not sure about that. I'll hand you over to a human agent.'',
          [\<lparr>event_type = ''escalation_reason'',
             payload = [(''reason'', JStr ''unknown_or_complex''),
                        (''input'', JStr ''I am so angry about this'')]\<rparr>])
   \<and> reason (handoff_reply ''unknown_or_complex''
            ''I'm not sure about that. I'll hand you over to a human agent.'')
       \<noteq> Some ''negative_sentiment''"
  by (simp add: handle_clean body_fallback angry_facts handoff_reply_def reply_def)

text \<open>
  C1 (amended): for the input "I am so angry about this" with the default settings,
  \<open>handle\<close> returns a handoff with reason \<open>unknown_or_complex\<close> and writes one
  \<open>escalation_reason\<close> entry, whatever the log held before.
\<close>

theorem C1_angry_unknown_or_complex:
  "handle (BotAgent default_settings) ''I am so angry about this'' lg =
     Inr (\<lparr>handled = False,
           message = ''I'm not sure about that. I'll hand you over to a human agent.'',
           guardrail_flag = None, action = None, tool_error = None,
           handoff = Some True, reason = Some ''unknown_or_complex''\<rparr>,
          lg @ [\<lparr>event_type = ''escalation_reason'',
                  payload = [(''reason'', JStr ''unknown_or_complex''),
                             (''input'', JStr ''I am so angry about this'')]\<rparr>])"
  by (simp add: handle_clean body_fallback angry_facts handoff_reply_def reply_def)

subsection \<open>C7: an order id that is not in the table\<close>

lemma z999_facts:
  "\<not> offensive (detect_offensive_or_negative ''order Z999'')"
  "first_faq FAQS (lower (strip ''order Z999'')) = None"
  "order_tool_enabled_predicate ''order Z999''"
  "search_order_id ''order Z999'' = Some ''Z999''"
  "map_of SIMULATED_ORDERS ''Z999'' = None"
  by code_simp+

text \<open>
  C7: for the input "order Z999" with the default settings, \<open>handle\<close> returns (it does
  not raise) a handled dictionary with \<open>tool_error\<close> true, whose message is the text of
  \<open>order_error_function\<close> naming Z999; the log gets \<open>tool_invoked\<close> and \<open>tool_error\<close>.
\<close>

theorem C7_order_not_found:
  "handle (BotAgent default_settings) ''order Z999'' lg =
     Inr (\<lparr>handled = True,
           message = ''Order ID 'Z999' not found. Please check the ID or contact support.'',
           guardrail_flag = None, action = None, tool_error = Some True,
           handoff = None, reason = None\<rparr>,
          lg @ [\<lparr>event_type = ''tool_invoked'',
                  payload = [(''tool'', JStr ''get_order_status''), (''order_id'', JStr ''Z999''),
                             (''user_input'', JStr ''order Z999'')]\<rparr>,
                \<lparr>event_type = ''tool_error'',
                  payload = [(''tool'', JStr ''get_order_status''), (''order_id'', JStr ''Z999''),
                             (''error'', JDict [(''error'', JBool True),
                                (''message'',
                                 JStr ''Order ID 'Z999' not found. Please check the ID or contact support.'')])]\<rparr>])"
  by (simp add: handle_clean body_tool_error [where oid = "''Z999''"] z999_facts
        order_error_function_def reply_def)

subsection \<open>C4: a known order and the verified-customer suffix\<close>

lemma a100_facts:
  "\<not> offensive (detect_offensive_or_negative ''check order A100'')"
  "first_faq FAQS (lower (strip ''check order A100'')) = None"
  "order_tool_enabled_predicate ''check order A100''"
  "search_order_id ''check order A100'' = Some ''A100''"
  "map_of SIMULATED_ORDERS ''A100''
     = Some \<lparr>status = ''shipped'', eta = ''2025-09-04'', items = [''Blue T-shirt'', ''Cap''],
             customer_id = ''12345''\<rparr>"
  by code_simp+

lemma a100_handle:
  "handle (BotAgent (ModelSettings ''auto'' md)) ''check order A100'' lg =
     Inr (reply True
            (''Order A100 is currently 'shipped'. ETA: 2025-09-04. Items: Blue T-shirt, Cap.''
               @ (if truthy (dict_get md ''customer_id'') \<and> dict_get md ''customer_id'' = Some ''12345''
                  then '' (Verified customer)'' else [])),
          lg @ [\<lparr>event_type = ''tool_invoked'',
                  payload = [(''tool'', JStr ''get_order_status''), (''order_id'', JStr ''A100''),
                             (''user_input'', JStr ''check order A100'')]\<rparr>,
                \<lparr>event_type = ''tool_success'',
                  payload = [(''tool'', JStr ''get_order_status''), (''order_id'', JStr ''A100'')]\<rparr>])"
  by (simp add: handle_clean a100_facts ModelSettings_def order_message_def
        body_tool_success [where oid = "''A100''", OF a100_facts(2) a100_facts(3) _ a100_facts(4) a100_facts(5)])


text \<open>
  C4: for the input "check order A100", \<open>handle\<close> with the default settings returns the
  handled dictionary whose message is the status line of order A100, without suffix. With
  \<open>tool_choice\<close> "auto" and any metadata, the suffix " (Verified customer)" is appended
  exactly when \<open>metadata.get("customer_id")\<close> is neither \<open>None\<close> nor empty and equals the
  customer id of the record, "12345": it is appended for "12345", not for "99999", not for
  the empty string.
\<close>

theorem C4_check_order_A100:
  "let base = ''Order A100 is currently 'shipped'. ETA: 2025-09-04. Items: Blue T-shirt, Cap.'';
       entries = [\<lparr>event_type = ''tool_invoked'',
                    payload = [(''tool'', JStr ''get_order_status''), (''order_id'', JStr ''A100''),
                               (''user_input'', JStr ''check order A100'')]\<rparr>,
                  \<lparr>event_type = ''tool_success'',
                    payload = [(''tool'', JStr ''get_order_status''), (''order_id'', JStr ''A100'')]\<rparr>];
       mc = dict_get md ''customer_id''
   in handle (BotAgent default_settings) ''check order A100'' lg = Inr (reply True base, lg @ entries)
    \<and> handle (BotAgent (ModelSettings ''auto'' [''customer_id'' \<mapsto> Some ''12345'']))
          ''check order A100'' lg = Inr (reply True (base @ '' (Verified customer)''), lg @ entries)
    \<and> handle (BotAgent (ModelSettings ''auto'' [''customer_id'' \<mapsto> Some ''99999'']))
          ''check order A100'' lg = Inr (reply True base, lg @ entries)
    \<and> handle (BotAgent (ModelSettings ''auto'' [''customer_id'' \<mapsto> Some []]))
          ''check order A100'' lg = Inr (reply True base, lg @ entries)
    \<and> map_option customer_id (map_of SIMULATED_ORDERS ''A100'') = Some ''12345''
    \<and> handle (BotAgent (ModelSettings ''auto'' md)) ''check order A100'' lg =
         Inr (reply True
                (if mc \<noteq> None \<and> mc \<noteq> Some [] \<and> mc = Some ''12345''
                 then base @ '' (Verified customer)'' else base),
              lg @ entries)"
  unfolding Let_def
proof (intro conjI)
  show "map_option customer_id (map_of SIMULATED_ORDERS ''A100'') = Some ''12345''"
    by (simp add: a100_facts)
qed (simp_all add: a100_handle default_settings_def truthy_def)

text \<open>The statement of C4 read at the metadata \<open>{"customer_id": "12345"}\<close> and the empty log.\<close>

theorem C4_witness:
  "handle (BotAgent (ModelSettings ''auto'' [''customer_id'' \<mapsto> Some ''12345''])) ''check order A100'' [] =
     Inr (reply True
            ''Order A100 is currently 'shipped'. ETA: 2025-09-04. Items: Blue T-shirt, Cap. (Verified customer)'',
          [\<lparr>event_type = ''tool_invoked'',
             payload = [(''tool'', JStr ''get_order_status''), (''order_id'', JStr ''A100''),
                        (''user_input'', JStr ''check order A100'')]\<rparr>,
           \<lparr>event_type = ''tool_success'',
             payload = [(''tool'', JStr ''get_order_status''), (''order_id'', JStr ''A100'')]\<rparr>])"
  using C4_check_order_A100 [of "[''customer_id'' \<mapsto> Some ''12345'']" "[]"]
  by (simp add: Let_def)

subsection \<open>C9: the tool is required and not eligible\<close>

text \<open>
  C9: when the input has no offensive word and no key of the table of questions in it,
  \<open>tool_choice\<close> is "required" and the eligibility predicate of the order tool is false,
  \<open>handle\<close> returns the handoff with reason \<open>tool_required_but_disabled\<close>.
\<close>

theorem C9_tool_required_but_disabled:
  assumes "\<not> offensive (detect_offensive_or_negative t)"
    and "\<forall>k \<in> fst ` set FAQS. \<not> contains k (lower (strip t))"
    and "tool_choice s = ''required''"
    and "\<not> order_tool_enabled_predicate t"
  shows "handle (BotAgent s) t lg =
     Inr (\<lparr>handled = False,
           message = ''I need to fetch order details but couldn't. Handing off to human agent.'',
           guardrail_flag = None, action = None, tool_error = None,
           handoff = Some True, reason = Some ''tool_required_but_disabled''\<rparr>,
          lg @ [\<lparr>event_type = ''escalation_reason'',
                  payload = [(''reason'', JStr ''tool_required_but_disabled''), (''input'', JStr t)]\<rparr>])"
proof -
  from assms(2) have "first_faq FAQS (lower (strip t)) = None"
    by (simp add: first_faq_None_iff)
  then show ?thesis
    using assms by (simp add: handle_clean body_required handoff_reply_def reply_def)
qed

lemma joke_facts:
  "\<not> offensive (detect_offensive_or_negative ''tell me a joke'')"
  "first_faq FAQS (lower (strip ''tell me a joke'')) = None"
  "\<not> order_tool_enabled_predicate ''tell me a joke''"
  by code_simp+

text \<open>C9 at the input "tell me a joke" with \<open>tool_choice\<close> "required".\<close>

theorem C9_witness:
  "handle (BotAgent (ModelSettings ''required'' Map.empty)) ''tell me a joke'' [] =
     Inr (\<lparr>handled = False,
           message = ''I need to fetch order details but couldn't. Handing off to human agent.'',
           guardrail_flag = None, action = None, tool_error = None,
           handoff = Some True, reason = Some ''tool_required_but_disabled''\<rparr>,
          [\<lparr>event_type = ''escalation_reason'',
             payload = [(''reason'', JStr ''tool_required_but_disabled''),
                        (''input'', JStr ''tell me a joke'')]\<rparr>])"
proof -
  have "\<forall>k \<in> fst ` set FAQS. \<not> contains k (lower (strip ''tell me a joke''))"
    using joke_facts(2) by (simp only: first_faq_None_iff)
  from C9_tool_required_but_disabled [OF joke_facts(1) this _ joke_facts(3),
      of "ModelSettings ''required'' Map.empty" "[]"]
  show ?thesis by (simp add: ModelSettings_def)
qed

subsection \<open>C10: a tool choice other than auto and required\<close>

text \<open>
  C10: when \<open>tool_choice\<close> is neither "auto" nor "required", every input without an
  offensive word and without a key of the table of questions that is eligible for the order
  tool gets the handoff with reason \<open>unknown_or_complex\<close>; the only entry written is the
  \<open>escalation_reason\<close>, so the order tool, which would write \<open>tool_invoked\<close>, is not called.
\<close>

theorem C10_other_tool_choice_never_invokes:
  assumes "tool_choice s \<noteq> ''auto''" and "tool_choice s \<noteq> ''required''"
    and "\<not> offensive (detect_offensive_or_negative t)"
    and "\<forall>k \<in> fst ` set FAQS. \<not> contains k (lower (strip t))"
    and "order_tool_enabled_predicate t"
  shows "\<exists>es. handle (BotAgent s) t lg =
     Inr (\<lparr>handled = False,
           message = ''I'm not sure about that. I'll hand you over to a human agent.'',
           guardrail_flag = None, action = None, tool_error = None,
           handoff = Some True, reason = Some ''unknown_or_complex''\<rparr>,
          lg @ es)
     \<and> es = [\<lparr>event_type = ''escalation_reason'',
                payload = [(''reason'', JStr ''unknown_or_complex''), (''input'', JStr t)]\<rparr>]
     \<and> ''tool_invoked'' \<notin> event_type ` set es"
proof -
  from assms(4) have "first_faq FAQS (lower (strip t)) = None"
    by (simp add: first_faq_None_iff)
  then show ?thesis
    using assms by (simp add: handle_clean body_fallback handoff_reply_def reply_def)
qed

lemma angry_a100_facts:
  "\<not> offensive (detect_offensive_or_negative ''angry order A100'')"
  "negative (detect_offensive_or_negative ''angry order A100'')"
  "first_faq FAQS (lower (strip ''angry order A100'')) = None"
  "order_tool_enabled_predicate ''angry order A100''"
  "search_order_id ''angry order A100'' = Some ''A100''"
  by code_simp+

text \<open>C10 at \<open>tool_choice\<close> "none" and the input "angry order A100", which holds an order id.\<close>

theorem C10_witness:
  "handle (BotAgent (ModelSettings ''none'' Map.empty)) ''angry order A100'' [] =
     Inr (\<lparr>handled = False,
           message = ''I'm not sure about that. I'll hand you over to a human agent.'',
           guardrail_flag = None, action = None, tool_error = None,
           handoff = Some True, reason = Some ''unknown_or_complex''\<rparr>,
          [\<lparr>event_type = ''escalation_reason'',
             payload = [(''reason'', JStr ''unknown_or_complex''),
                        (''input'', JStr ''angry order A100'')]\<rparr>])"
proof -
  have "\<forall>k \<in> fst ` set FAQS. \<not> contains k (lower (strip ''angry order A100''))"
    using angry_a100_facts(3) by (simp only: first_faq_None_iff)
  from C10_other_tool_choice_never_invokes [OF _ _ angry_a100_facts(1) this angry_a100_facts(4),
      of "ModelSettings ''none'' Map.empty" "[]"]
  show ?thesis by (auto simp add: ModelSettings_def)
qed

subsection \<open>C5: offensive input\<close>

text \<open>
  C5: when a piece \<open>u\<close> of the input lower-cases to one of the offensive words, \<open>handle\<close>
  returns the fixed apology of the guardrail, flagged \<open>guardrail\<close>, and writes one
  \<open>guardrail_triggered\<close> entry. The decorator gives that same result whatever function it
  wraps, so nothing of the body of \<open>handle\<close> is run: not the table of questions, not the
  order lookup, not the check for negative words.
\<close>

theorem C5_offensive_input_blocked:
  assumes "w \<in> set OFFENSIVE_WORDS" and "t = a @ u @ b" and "lower u = w"
  shows "handle self t lg =
           Inr (\<lparr>handled = True,
                 message = ''I'm here to help, but I can't respond to offensive language. Could you rephrase your question?'',
                 guardrail_flag = Some True, action = Some ''block_or_rephrase'',
                 tool_error = None, handoff = None, reason = None\<rparr>,
                lg @ [\<lparr>event_type = ''guardrail_triggered'',
                        payload = [(''reason'', JStr ''offensive_language''), (''input'', JStr t)]\<rparr>])
       \<and> guardrail fn self t lg = handle self t lg"
proof -
  from assms(2,3) have "contains w (lower t)"
    by (auto simp: contains_lower_iff)
  with assms(1) have off: "offensive (detect_offensive_or_negative t)"
    by (auto simp: offensive_iff)
  then have "guardrail fn self t lg = handle self t lg"
    by (simp add: handle_def guardrail_def)
  with off show ?thesis
    by (simp add: handle_offensive guardrail_reply_def reply_def)
qed

lemma lower_IDIOT: "lower ''IDIOT'' = ''idiot''"
  by code_simp

text \<open>
  C5 at an input that holds an offensive word in upper case, a key of the table of
  questions, an order id and a negative word.
\<close>

theorem C5_witness:
  "handle (BotAgent default_settings)
       ''You IDIOT, what is your return policy for order A100? I am angry'' [] =
     Inr (\<lparr>handled = True,
           message = ''I'm here to help, but I can't respond to offensive language. Could you rephrase your question?'',
           guardrail_flag = Some True, action = Some ''block_or_rephrase'',
           tool_error = None, handoff = None, reason = None\<rparr>,
          [\<lparr>event_type = ''guardrail_triggered'',
             payload = [(''reason'', JStr ''offensive_language''),
                        (''input'', JStr ''You IDIOT, what is your return policy for order A100? I am angry'')]\<rparr>])"
proof -
  have w: "''idiot'' \<in> set OFFENSIVE_WORDS" by (simp add: OFFENSIVE_WORDS_def)
  have t: "''You IDIOT, what is your return policy for order A100? I am angry''
             = ''You '' @ ''IDIOT'' @ '', what is your return policy for order A100? I am angry''"
    by simp
  from C5_offensive_input_blocked [OF w t lower_IDIOT, of "BotAgent default_settings" "[]"]
  show ?thesis by simp
qed

subsection \<open>C6: the table of questions\<close>

lemma FAQS_distinct: "distinct (map fst FAQS)"
  by (simp add: FAQS_def)

text \<open>
  C6: when the input has no offensive word and the lower-cased, stripped input contains a
  key of the table of questions, \<open>handle\<close> returns a handled dictionary whose message is
  the answer stored under the first key, in the order of the table, that the input
  contains; the entry written is \<open>faq_answered\<close> with that key.
\<close>

theorem C6_faq_first_match:
  assumes "\<forall>w \<in> set OFFENSIVE_WORDS. \<not> contains w (lower t)"
    and "\<exists>k \<in> fst ` set FAQS. contains k (lower (strip t))"
  shows "\<exists>i < length FAQS.
           contains (fst (FAQS ! i)) (lower (strip t))
         \<and> (\<forall>j < i. \<not> contains (fst (FAQS ! j)) (lower (strip t)))
         \<and> map_of FAQS (fst (FAQS ! i)) = Some (snd (FAQS ! i))
         \<and> handle (BotAgent s) t lg =
             Inr (\<lparr>handled = True, message = snd (FAQS ! i),
                   guardrail_flag = None, action = None, tool_error = None,
                   handoff = None, reason = None\<rparr>,
                  lg @ [\<lparr>event_type = ''faq_answered'',
                          payload = [(''faq'', JStr (fst (FAQS ! i))), (''user_input'', JStr t)]\<rparr>])"
proof -
  from assms(1) have clean: "\<not> offensive (detect_offensive_or_negative t)"
    by (simp add: offensive_iff)
  from first_faq_first [OF assms(2)] obtain i where i: "i < length FAQS"
    "first_faq FAQS (lower (strip t)) = Some (FAQS ! i)"
    "contains (fst (FAQS ! i)) (lower (strip t))"
    "\<forall>j < i. \<not> contains (fst (FAQS ! j)) (lower (strip t))"
    by blast
  from i(1) have "FAQS ! i \<in> set FAQS" by simp
  then have "(fst (FAQS ! i), snd (FAQS ! i)) \<in> set FAQS" by simp
  then have m: "map_of FAQS (fst (FAQS ! i)) = Some (snd (FAQS ! i))"
    using FAQS_distinct by (rule_tac map_of_is_SomeI)
  from i(2) have "first_faq FAQS (lower (strip t)) = Some (fst (FAQS ! i), snd (FAQS ! i))"
    by simp
  from body_faq [OF this, of s lg] handle_clean [OF clean, of "BotAgent s" lg]
  have "handle (BotAgent s) t lg =
      Inr (reply True (snd (FAQS ! i)),
           lg @ [\<lparr>event_type = ''faq_answered'',
                   payload = [(''faq'', JStr (fst (FAQS ! i))), (''user_input'', JStr t)]\<rparr>])"
    by simp
  with i m show ?thesis by (auto simp: reply_def)
qed

lemma two_faq_facts:
  "list_all (\<lambda>w. \<not> contains w (lower ''  How to contact support? And WHAT is your return policy?  '')) OFFENSIVE_WORDS"
  "contains (fst (FAQS ! 0)) (lower (strip ''  How to contact support? And WHAT is your return policy?  ''))"
  "FAQS ! 0 = (''what is your return policy'',
       ''You can return items within 14 days of delivery for a full refund (item must be unused).'')"
  "0 < length FAQS"
  by code_simp+

text \<open>
  C6 at an input that contains two keys: the second key of the table comes first in the
  input, and the answer is the one of the first key of the table.
\<close>

theorem C6_witness:
  "handle (BotAgent default_settings) ''  How to contact support? And WHAT is your return policy?  '' [] =
     Inr (\<lparr>handled = True,
           message = ''You can return items within 14 days of delivery for a full refund (item must be unused).'',
           guardrail_flag = None, action = None, tool_error = None, handoff = None, reason = None\<rparr>,
          [\<lparr>event_type = ''faq_answered'',
             payload = [(''faq'', JStr ''what is your return policy''),
                        (''user_input'', JStr ''  How to contact support? And WHAT is your return policy?  '')]\<rparr>])"
proof -
  let ?t = "''  How to contact support? And WHAT is your return policy?  ''"
  have h1: "\<forall>w \<in> set OFFENSIVE_WORDS. \<not> contains w (lower ?t)"
    using two_faq_facts(1) by (simp only: list_all_iff)
  have "fst (FAQS ! 0) \<in> fst ` set FAQS"
    using two_faq_facts(4) by (intro imageI nth_mem)
  with two_faq_facts(2) have h2: "\<exists>k \<in> fst ` set FAQS. contains k (lower (strip ?t))"
    by blast
  from C6_faq_first_match [OF h1 h2, of default_settings "[]"]
  obtain i where i: "\<forall>j < i. \<not> contains (fst (FAQS ! j)) (lower (strip ?t))"
    "handle (BotAgent default_settings) ?t [] =
       Inr (\<lparr>handled = True, message = snd (FAQS ! i),
             guardrail_flag = None, action = None, tool_error = None, handoff = None, reason = None\<rparr>,
            [] @ [\<lparr>event_type = ''faq_answered'',
                     payload = [(''faq'', JStr (fst (FAQS ! i))), (''user_input'', JStr ?t)]\<rparr>])"
    by blast
  from i(1) two_faq_facts(2) have "i = 0" by (cases i) auto
  with i(2) show ?thesis by (simp add: two_faq_facts(3))
qed

subsection \<open>C8: an order id and a negative word in one input\<close>

lemma upset_b201_facts:
  "\<not> offensive (detect_offensive_or_negative ''I am upset, where is order B201'')"
  "negative (detect_offensive_or_negative ''I am upset, where is order B201'')"
  "first_faq FAQS (lower (strip ''I am upset, where is order B201'')) = None"
  "order_tool_enabled_predicate ''I am upset, where is order B201''"
  "search_order_id ''I am upset, where is order B201'' = Some ''B201''"
  "map_of SIMULATED_ORDERS ''B201''
     = Some \<lparr>status = ''processing'', eta = ''2025-09-10'', items = [''Coffee Mug''],
             customer_id = ''67890''\<rparr>"
  by code_simp+

text \<open>
  C8, as stated, fails where \<open>tool_choice\<close> is neither "auto" nor "required": the input
  "I am upset, where is order B201" has no offensive word and no key of the table of
  questions, is eligible, holds the order id B201 and the negative word "upset", and with
  \<open>tool_choice\<close> "none" \<open>handle\<close> does not go on to the order lookup: it writes no
  \<open>tool_invoked\<close> entry and hands off with reason \<open>unknown_or_complex\<close>.
\<close>

theorem C8_counterexample:
  "\<not> offensive (detect_offensive_or_negative ''I am upset, where is order B201'')
   \<and> first_faq FAQS (lower (strip ''I am upset, where is order B201'')) = None
   \<and> order_tool_enabled_predicate ''I am upset, where is order B201''
   \<and> search_order_id ''I am upset, where is order B201'' = Some ''B201''
   \<and> negative (detect_offensive_or_negative ''I am upset, where is order B201'')
   \<and> handle (BotAgent (ModelSettings ''none'' Map.empty)) ''I am upset, where is order B201'' [] =
       Inr (\<lparr>handled = False,
             message = ''I'm not sure about that. I'll hand you over to a human agent.'',
             guardrail_flag = None, action = None, tool_error = None,
             handoff = Some True, reason = Some ''unknown_or_complex''\<rparr>,
            [\<lparr>event_type = ''escalation_reason'',
               payload = [(''reason'', JStr ''unknown_or_complex''),
                          (''input'', JStr ''I am upset, where is order B201'')]\<rparr>])"
  by (simp add: upset_b201_facts handle_clean body_fallback ModelSettings_def
        handoff_reply_def reply_def)

text \<open>
  C8 (amended): for an input without offensive word and without key of the table of
  questions that is eligible, holds an order id and holds a negative word, \<open>handle\<close>
  returns, never with the reason \<open>negative_sentiment\<close>, and, when \<open>tool_choice\<close> is
  "auto" or "required", after calling the order tool with that id (the log gets
  \<open>tool_invoked\<close> for the id, then \<open>tool_success\<close> or \<open>tool_error\<close>). Conversely, whenever
  \<open>handle\<close> returns the reason \<open>negative_sentiment\<close>, the input was eligible, no order id
  was found in it, it held a negative word, and \<open>tool_choice\<close> was "auto" or "required".
\<close>

theorem C8_order_id_before_negative:
  "(\<not> offensive (detect_offensive_or_negative t)
      \<and> (\<forall>k \<in> fst ` set FAQS. \<not> contains k (lower (strip t)))
      \<and> order_tool_enabled_predicate t
      \<and> search_order_id t = Some oid
      \<and> negative (detect_offensive_or_negative t)
    \<longrightarrow> (\<exists>r es. handle (BotAgent s) t lg = Inr (r, lg @ es)
           \<and> reason r \<noteq> Some ''negative_sentiment''
           \<and> (tool_choice s = ''auto'' \<or> tool_choice s = ''required'' \<longrightarrow>
                handled r
              \<and> (\<exists>e. es = [\<lparr>event_type = ''tool_invoked'',
                               payload = [(''tool'', JStr ''get_order_status''), (''order_id'', JStr oid),
                                          (''user_input'', JStr t)]\<rparr>, e]
                     \<and> (event_type e = ''tool_success'' \<or> event_type e = ''tool_error'')))))
   \<and> (\<forall>r lg'. handle (BotAgent s) t lg = Inr (r, lg') \<and> reason r = Some ''negative_sentiment''
        \<longrightarrow> order_tool_enabled_predicate t \<and> search_order_id t = None
          \<and> negative (detect_offensive_or_negative t)
          \<and> (tool_choice s = ''auto'' \<or> tool_choice s = ''required''))"
proof (intro conjI impI allI)
  assume h: "\<not> offensive (detect_offensive_or_negative t)
      \<and> (\<forall>k \<in> fst ` set FAQS. \<not> contains k (lower (strip t)))
      \<and> order_tool_enabled_predicate t
      \<and> search_order_id t = Some oid
      \<and> negative (detect_offensive_or_negative t)"
  then have nofaq: "first_faq FAQS (lower (strip t)) = None"
    by (simp add: first_faq_None_iff)
  show "\<exists>r es. handle (BotAgent s) t lg = Inr (r, lg @ es)
           \<and> reason r \<noteq> Some ''negative_sentiment''
           \<and> (tool_choice s = ''auto'' \<or> tool_choice s = ''required'' \<longrightarrow>
                handled r
              \<and> (\<exists>e. es = [\<lparr>event_type = ''tool_invoked'',
                               payload = [(''tool'', JStr ''get_order_status''), (''order_id'', JStr oid),
                                          (''user_input'', JStr t)]\<rparr>, e]
                     \<and> (event_type e = ''tool_success'' \<or> event_type e = ''tool_error'')))"
  proof (cases rule: handle_cases [of t s lg])
    case guard
    with h show ?thesis by simp
  next
    case (faq k v)
    with nofaq show ?thesis by simp
  next
    case required
    with h show ?thesis by simp
  next
    case (tool_error oid')
    with h have "oid' = oid" by simp
    with tool_error(7) show ?thesis by (simp add: reply_def)
  next
    case (tool_success oid' ord)
    with h have "oid' = oid" by simp
    with tool_success(7) show ?thesis by (simp add: reply_def)
  next
    case negative
    with h show ?thesis by simp
  next
    case prompt
    with h show ?thesis by simp
  next
    case fallback
    then show ?thesis using h by auto
  qed
next
  fix r lg'
  assume a: "handle (BotAgent s) t lg = Inr (r, lg') \<and> reason r = Some ''negative_sentiment''"
  have "order_tool_enabled_predicate t \<and> search_order_id t = None
          \<and> negative (detect_offensive_or_negative t)
          \<and> (tool_choice s = ''auto'' \<or> tool_choice s = ''required'')"
  proof (cases rule: handle_cases [of t s lg])
    case negative
    then show ?thesis by simp
  qed (use a in auto)
  then show "order_tool_enabled_predicate t" "search_order_id t = None"
    "negative (detect_offensive_or_negative t)"
    "tool_choice s = ''auto'' \<or> tool_choice s = ''required''" by auto
qed

text \<open>C8 (amended) at the input "I am upset, where is order B201" with the default settings.\<close>

theorem C8_witness:
  "\<exists>r e. handle (BotAgent default_settings) ''I am upset, where is order B201'' [] =
            Inr (r, [\<lparr>event_type = ''tool_invoked'',
                       payload = [(''tool'', JStr ''get_order_status''), (''order_id'', JStr ''B201''),
                                  (''user_input'', JStr ''I am upset, where is order B201'')]\<rparr>, e])
        \<and> handled r \<and> reason r \<noteq> Some ''negative_sentiment''
        \<and> (event_type e = ''tool_success'' \<or> event_type e = ''tool_error'')"
proof -
  let ?t = "''I am upset, where is order B201''"
  have nofaq: "\<forall>k \<in> fst ` set FAQS. \<not> contains k (lower (strip ?t))"
    using upset_b201_facts(3) by (simp only: first_faq_None_iff)
  have "\<exists>r es. handle (BotAgent default_settings) ?t [] = Inr (r, [] @ es)
           \<and> reason r \<noteq> Some ''negative_sentiment''
           \<and> (tool_choice default_settings = ''auto'' \<or> tool_choice default_settings = ''required'' \<longrightarrow>
                handled r
              \<and> (\<exists>e. es = [\<lparr>event_type = ''tool_invoked'',
                               payload = [(''tool'', JStr ''get_order_status''), (''order_id'', JStr ''B201''),
                                          (''user_input'', JStr ?t)]\<rparr>, e]
                     \<and> (event_type e = ''tool_success'' \<or> event_type e = ''tool_error'')))"
    using C8_order_id_before_negative [of ?t "''B201''" default_settings "[]"]
      upset_b201_facts(1,2,4,5) nofaq by blast
  then show ?thesis by (auto simp del: handle_def)
qed

subsection \<open>C2: one outcome, and the log writes of a call\<close>

text \<open>
  C2, as stated, fails: the call for "check order A100" with the default settings writes two
  log entries, \<open>tool_invoked\<close> (written by the tool itself) and \<open>tool_success\<close>.
\<close>

theorem C2_counterexample:
  "handle (BotAgent default_settings) ''check order A100'' [] =
     Inr (reply True ''Order A100 is currently 'shipped'. ETA: 2025-09-04. Items: Blue T-shirt, Cap.'',
          [\<lparr>event_type = ''tool_invoked'',
             payload = [(''tool'', JStr ''get_order_status''), (''order_id'', JStr ''A100''),
                        (''user_input'', JStr ''check order A100'')]\<rparr>,
           \<lparr>event_type = ''tool_success'',
             payload = [(''tool'', JStr ''get_order_status''), (''order_id'', JStr ''A100'')]\<rparr>])
   \<and> length (snd (projr (handle (BotAgent default_settings) ''check order A100'' []))) = 2"
  using a100_handle [of Map.empty "[]"] by (simp add: default_settings_def truthy_def)

text \<open>
  C2 (amended): every call of \<open>handle\<close> on an agent built by \<open>BotAgent\<close> returns one
  dictionary (it does not raise) and only appends to the log. It appends exactly one entry
  naming the branch when the guardrail fires (\<open>guardrail_triggered\<close>), when a question of
  the table is answered (\<open>faq_answered\<close>, with the key) and when it hands off
  (\<open>escalation_reason\<close> or \<open>escalation\<close>, with the reason returned); it appends exactly
  two when the order tool is called: \<open>tool_invoked\<close>, then \<open>tool_success\<close> or
  \<open>tool_error\<close>. The remaining way out, the request for an order id, is named by its
  dictionary and nothing is stated here about its log writes.
\<close>

theorem C2_one_outcome_and_log_writes:
  "\<exists>r es. handle (BotAgent s) t lg = Inr (r, lg @ es)
     \<and> ( (handled r \<and> guardrail_flag r = Some True
            \<and> es = [\<lparr>event_type = ''guardrail_triggered'',
                       payload = [(''reason'', JStr ''offensive_language''), (''input'', JStr t)]\<rparr>])
        \<or> (handled r \<and> guardrail_flag r = None \<and> tool_error r = None
            \<and> (\<exists>k. (k, message r) \<in> set FAQS
                  \<and> es = [\<lparr>event_type = ''faq_answered'',
                            payload = [(''faq'', JStr k), (''user_input'', JStr t)]\<rparr>]))
        \<or> (handled r \<and> tool_error r = Some True
            \<and> map event_type es = [''tool_invoked'', ''tool_error''])
        \<or> (handled r \<and> guardrail_flag r = None \<and> tool_error r = None
            \<and> map event_type es = [''tool_invoked'', ''tool_success''])
        \<or> (\<not> handled r \<and> handoff r = Some True
            \<and> (reason r = Some ''tool_required_but_disabled'' \<or> reason r = Some ''unknown_or_complex'')
            \<and> es = [\<lparr>event_type = ''escalation_reason'',
                       payload = [(''reason'', JStr (the (reason r))), (''input'', JStr t)]\<rparr>])
        \<or> (\<not> handled r \<and> handoff r = Some True \<and> reason r = Some ''negative_sentiment''
            \<and> es = [\<lparr>event_type = ''escalation'',
                       payload = [(''reason'', JStr ''negative_sentiment''), (''input'', JStr t)]\<rparr>])
        \<or> r = reply True
              ''Could you please provide your order ID (format like A100) so I can check the status?'')"
proof (cases rule: handle_cases [of t s lg])
  case guard
  then show ?thesis by (simp add: guardrail_reply_def reply_def)
next
  case (faq k v)
  from faq(2) have "(k, v) \<in> set FAQS"
    by (rule first_faq_mem)
  with faq(3) show ?thesis by (auto simp add: reply_def)
next
  case required
  then show ?thesis by (simp add: handoff_reply_def reply_def)
next
  case (tool_error oid)
  then show ?thesis by (simp add: reply_def)
next
  case (tool_success oid ord)
  then show ?thesis by (simp add: reply_def)
next
  case negative
  then show ?thesis by (simp add: handoff_reply_def reply_def)
next
  case prompt
  have "lg = lg @ []" by simp
  with prompt(7) show ?thesis by metis
next
  case fallback
  then show ?thesis by (simp add: handoff_reply_def reply_def)
qed

subsection \<open>C3: the eligibility predicate of the order tool\<close>

text \<open>
  C3, as stated, fails: "XY12" holds the upper-case letter Y followed by two digits, so the
  predicate in the words of the specification is true of it, but the pattern of the source
  asks for a word boundary before the letter, and \<open>order_tool_enabled_predicate\<close> is false.
\<close>

theorem C3_counterexample:
  "spec_eligible ''XY12'' \<and> \<not> order_tool_enabled_predicate ''XY12''"
  by code_simp

text \<open>
  C3 (amended): the eligibility predicate is true exactly when a piece of the text
  lower-cases to "order", or the text holds one upper-case ASCII letter followed by two or
  more digits, where the character before the letter (if any) and the character after the
  digits (if any) are not word characters. It is true of "please check order" and of
  "A12 status" and false of "status of XY1".
\<close>

theorem C3_eligible_with_word_boundaries:
  "(order_tool_enabled_predicate t \<longleftrightarrow>
      (\<exists>a u b. t = a @ u @ b \<and> lower u = ''order'')
    \<or> (\<exists>pre c ds post. t = pre @ c # ds @ post \<and> is_ascii_upper c \<and> 2 \<le> length ds
          \<and> list_all is_digit ds
          \<and> \<not> is_word_opt (last_opt pre) \<and> \<not> is_word_opt (hd_opt post)))
   \<and> order_tool_enabled_predicate ''please check order''
   \<and> \<not> order_tool_enabled_predicate ''status of XY1''
   \<and> order_tool_enabled_predicate ''A12 status''"
proof (intro conjI)
  show "order_tool_enabled_predicate t \<longleftrightarrow>
      (\<exists>a u b. t = a @ u @ b \<and> lower u = ''order'')
    \<or> (\<exists>pre c ds post. t = pre @ c # ds @ post \<and> is_ascii_upper c \<and> 2 \<le> length ds
          \<and> list_all is_digit ds
          \<and> \<not> is_word_opt (last_opt pre) \<and> \<not> is_word_opt (hd_opt post))"
    unfolding order_tool_enabled_predicate_def Let_def contains_lower_iff search_order_id_iff
    by (rule refl)
  show "order_tool_enabled_predicate ''please check order''" by code_simp
  show "\<not> order_tool_enabled_predicate ''status of XY1''" by code_simp
  show "order_tool_enabled_predicate ''A12 status''" by code_simp
qed

lemma b201_parts:
  "is_ascii_upper CHR ''B''" "list_all is_digit ''201''"
  "\<not> is_word_opt (last_opt ''ship '')" "\<not> is_word_opt (hd_opt '' now'')"
  by code_simp+

text \<open>C3 (amended) at the input "ship B201 now", eligible through the id alone.\<close>

theorem C3_witness:
  "order_tool_enabled_predicate ''ship B201 now''"
proof -
  have "''ship B201 now'' = ''ship '' @ CHR ''B'' # ''201'' @ '' now'' \<and> is_ascii_upper CHR ''B''
      \<and> 2 \<le> length ''201'' \<and> list_all is_digit ''201''
      \<and> \<not> is_word_opt (last_opt ''ship '') \<and> \<not> is_word_opt (hd_opt '' now'')"
    using b201_parts by simp
  then have "\<exists>pre c ds post. ''ship B201 now'' = pre @ c # ds @ post \<and> is_ascii_upper c
      \<and> 2 \<le> length ds \<and> list_all is_digit ds
      \<and> \<not> is_word_opt (last_opt pre) \<and> \<not> is_word_opt (hd_opt post)"
    by blast
  with C3_eligible_with_word_boundaries [of "''ship B201 now''"] show ?thesis
    by blast
qed

end
